theory Spec2Isabelle
  imports Complex_Main "HOL-Library.Sublist" "HOL-Library.Word"
begin

unbundle bit_operations_syntax

section \<open>Catalog model (main.go)\<close>

text \<open>
  \<^verbatim>\<open>type File struct { Filename, Os, Arch, Version, Sha256 string; Size int; Kind string }\<close>
\<close>

record File =
  Filename :: string
  Os :: string
  Arch :: string
  Version :: string
  Sha256 :: string
  Size :: int
  Kind :: string

text \<open>The zero value \<^verbatim>\<open>File{}\<close>: every string empty, the size 0.\<close>

definition zero_File :: File where
  "zero_File = \<lparr>Filename = [], Os = [], Arch = [], Version = [], Sha256 = [], Size = 0, Kind = []\<rparr>"

text \<open>
  \<^verbatim>\<open>func (files Files) Filter(specs ...func(f File) bool) []File\<close>:
  the inner loop folds the predicates into \<^verbatim>\<open>isSpecified\<close>, starting from true;
  the outer loop appends the file when the flag is still set.
\<close>

fun isSpecified_loop :: "bool \<Rightarrow> (File \<Rightarrow> bool) list \<Rightarrow> File \<Rightarrow> bool" where
  "isSpecified_loop acc [] v = acc"
| "isSpecified_loop acc (spec # specs) v = isSpecified_loop (acc \<and> spec v) specs v"

fun Filter_loop :: "File list \<Rightarrow> File list \<Rightarrow> (File \<Rightarrow> bool) list \<Rightarrow> File list" where
  "Filter_loop filteredFiles [] specs = filteredFiles"
| "Filter_loop filteredFiles (v # files) specs =
     (if isSpecified_loop True specs v
      then Filter_loop (filteredFiles @ [v]) files specs
      else Filter_loop filteredFiles files specs)"

definition Filter :: "File list \<Rightarrow> (File \<Rightarrow> bool) list \<Rightarrow> File list" where
  "Filter files specs = Filter_loop [] files specs"

text \<open>
  \<^verbatim>\<open>type Release struct { Version string; Stable bool; Files Files }\<close>. Its
  \<^verbatim>\<open>Version\<close> field is written \<open>Release.Version\<close>, that of a file \<open>File.Version\<close>.
\<close>

record Release =
  Version :: string
  Stable :: bool
  Files :: "File list"

text \<open>
  \<^verbatim>\<open>type ByRelease []Release\<close> with \<^verbatim>\<open>Len\<close>, \<^verbatim>\<open>Swap\<close> and \<^verbatim>\<open>Less\<close>.
  An index out of range panics. \<^verbatim>\<open>version.Compare\<close> belongs to Go's standard library
  (\<^verbatim>\<open>go/version\<close>) and is a parameter here: it returns a negative number, zero or a
  positive number.
\<close>

datatype 'a outcome = Panic | Return 'a

definition Len :: "Release list \<Rightarrow> int" where
  "Len a = int (length a)"

definition Swap :: "Release list \<Rightarrow> int \<Rightarrow> int \<Rightarrow> Release list outcome" where
  "Swap a i j =
     (if 0 \<le> i \<and> i < Len a \<and> 0 \<le> j \<and> j < Len a
      then Return (a[nat i := a ! nat j, nat j := a ! nat i]) else Panic)"




section \<open>Errors, byte streams and progress values\<close>

type_synonym byte = "8 word"

text \<open>
  A Go \<^verbatim>\<open>error\<close> value: the sentinel \<^verbatim>\<open>io.EOF\<close>, which the code compares by
  identity, or any other error, kept by its message.
\<close>

datatype error = EOF | Error string

text \<open>
  The \<^verbatim>\<open>float64\<close> handed to \<^verbatim>\<open>onProgress\<close> is always the quotient of two
  converted integers. The quotient is kept exact (rounding of the conversion and of the
  division is left out); a zero divisor gives the IEEE special values, as Go's float
  division does: it does not panic.
\<close>

datatype float64 = Finite real | PosInf | NegInf | NaN

definition fdiv :: "int \<Rightarrow> int \<Rightarrow> float64" where
  "fdiv n d =
     (if d \<noteq> 0 then Finite (real_of_int n / real_of_int d)
      else if n = 0 then NaN else if 0 < n then PosInf else NegInf)"

text \<open>
  \<^verbatim>\<open>resp.Body\<close>, an \<^verbatim>\<open>io.Reader\<close>: what the stream has ready, burst by burst. A
  burst is the bytes ready and the error that arrives with their end (none, \<^verbatim>\<open>io.EOF\<close>
  or a failure). \<^verbatim>\<open>Read(buf)\<close> hands out at most \<^verbatim>\<open>len(buf)\<close> bytes: a burst that
  does not fit is cut, the call returns the first \<^verbatim>\<open>len(buf)\<close> bytes with a nil error
  and the rest stays pending. A stream with nothing left reports \<^verbatim>\<open>io.EOF\<close>.
\<close>

type_synonym reader = "(byte list \<times> error option) list"

fun Read :: "reader \<Rightarrow> nat \<Rightarrow> (byte list \<times> error option) \<times> reader" where
  "Read [] n = (([], Some EOF), [])"
| "Read ((d, e) # rest) n =
     (if length d \<le> n then ((d, e), rest)
      else ((take n d, None), (drop n d, e) # rest))"

text \<open>
  \<^verbatim>\<open>outFile *os.File\<close>, written sequentially: the bytes it holds, and what the next
  \<^verbatim>\<open>Write\<close> calls will meet (\<open>None\<close>: the write goes through; \<open>Some (n, e)\<close>: the write
  stops after \<open>n\<close> bytes with error \<open>e\<close>). Once the list is used up every write goes
  through. \<^verbatim>\<open>os.File.Write\<close> returns a non-nil error whenever it writes fewer bytes
  than asked, so there is no short write with a nil error.
\<close>

record os_file =
  content :: "byte list"
  write_faults :: "(nat \<times> error) option list"

fun Write :: "os_file \<Rightarrow> byte list \<Rightarrow> (nat \<times> error option) \<times> os_file" where
  "Write f p =
     (case write_faults f of
        [] \<Rightarrow> ((length p, None), f\<lparr>content := content f @ p\<rparr>)
      | None # faults \<Rightarrow> ((length p, None), f\<lparr>content := content f @ p, write_faults := faults\<rparr>)
      | Some (n, e) # faults \<Rightarrow>
          ((min n (length p), Some e), f\<lparr>content := content f @ take n p, write_faults := faults\<rparr>))"

text \<open>What the outside world sees of a run, in order.\<close>

datatype event =
    Request string
  | TempFile
  | ReadCall "byte list" "error option"
  | WriteCall "byte list" nat "error option"
  | Progress float64

text \<open>The progress values among the events, in order.\<close>

fun progress_of :: "event list \<Rightarrow> float64 list" where
  "progress_of [] = []"
| "progress_of (Progress p # rest) = p # progress_of rest"
| "progress_of (ev # rest) = progress_of rest"

section \<open>Transfer engine: GoRepository.Download (main.go)\<close>

record response =
  ContentLength :: int
  Body :: reader

text \<open>
  The HTTP client, as far as \<^verbatim>\<open>Download\<close> uses it:
  \<^verbatim>\<open>http.NewRequestWithContext\<close> may reject the URL, \<^verbatim>\<open>client.Do\<close> fails or
  answers.
\<close>

record http_client =
  NewRequest :: "string \<Rightarrow> error option"
  Do :: "string \<Rightarrow> error + response"

record GoRepository =
  url :: string
  client :: http_client

text \<open>\<^verbatim>\<open>buf := make([]byte, 32*1024)\<close>, by its length.\<close>

definition buf :: nat where
  "buf = 32 * 1024"

text \<open>What is still to come from a reader: the measure of the download loop.\<close>

definition pending :: "reader \<Rightarrow> nat" where
  "pending r = sum_list (map (\<lambda>(d, e). Suc (length d)) r)"

text \<open>
  The \<^verbatim>\<open>for\<close> loop of \<^verbatim>\<open>Download\<close>. \<^verbatim>\<open>downloaded\<close> and \<^verbatim>\<open>total\<close> (here \<open>tot\<close>) are Go
  \<^verbatim>\<open>int\<close>s (64 bits here, far from overflow for byte counts). The loop returns the
  error, the file and the events of its iterations.
\<close>

function Download_loop :: "int \<Rightarrow> int \<Rightarrow> reader \<Rightarrow> os_file \<Rightarrow> error option \<times> os_file \<times> event list" where
  "Download_loop tot downloaded body outFile =
     (case Read body buf of
        ((chunk, errRead), body') \<Rightarrow>
          if 0 < length chunk then
            (case Write outFile chunk of
               ((nw, errWrite), outFile') \<Rightarrow>
                 let downloaded' = downloaded + int nw;
                     evs = [ReadCall chunk errRead, WriteCall chunk nw errWrite,
                            Progress (fdiv downloaded' tot)]
                 in (case errWrite of
                       Some e \<Rightarrow> (Some e, outFile', evs)
                     | None \<Rightarrow>
                        (case errRead of
                           Some e \<Rightarrow> (if e \<noteq> EOF then Some e else None, outFile', evs)
                         | None \<Rightarrow>
                            (case Download_loop tot downloaded' body' outFile' of
                               (r, f, es) \<Rightarrow> (r, f, evs @ es)))))
          else
            (case errRead of
               Some e \<Rightarrow> (if e \<noteq> EOF then Some e else None, outFile, [ReadCall chunk errRead])
             | None \<Rightarrow>
                (case Download_loop tot downloaded body' outFile of
                   (r, f, es) \<Rightarrow> (r, f, ReadCall chunk errRead # es))))"
  by pat_completeness auto

lemma Read_pending:
  assumes "Read body n = ((chunk, None), body')" and "0 < n"
  shows "pending body' < pending body"
proof (cases body)
  case Nil
  with assms show ?thesis by simp
next
  case (Cons b rest)
  obtain d e where b: "b = (d, e)" by (cases b)
  show ?thesis
  proof (cases "length d \<le> n")
    case True
    with assms Cons b show ?thesis by (auto simp: pending_def)
  next
    case False
    with assms Cons b have "body' = (drop n d, e) # rest" by auto
    with False assms Cons b show ?thesis by (simp add: pending_def)
  qed
qed

termination Download_loop
proof (relation "measure (\<lambda>(tot, downloaded, body, outFile). pending body)", goal_cases)
  case 1
  show ?case by simp
next
  case (2 tot downloaded body outFile x y xa ya xb yb xc yc xd xe)
  then have "Read body buf = ((xa, None), y)" by simp
  then have "pending y < pending body"
    by (rule Read_pending) (simp add: buf_def)
  then show ?case by simp
next
  case (3 tot downloaded body outFile x y xa ya)
  then have "Read body buf = ((xa, None), y)" by simp
  then have "pending y < pending body"
    by (rule Read_pending) (simp add: buf_def)
  then show ?case by simp
qed

text \<open>
  \<^verbatim>\<open>func (g *GoRepository) Download(ctx, dlFile File, outFile *os.File) error\<close>.
  \<^verbatim>\<open>total := int(resp.ContentLength)\<close> converts an \<^verbatim>\<open>int64\<close> to a 64-bit
  \<^verbatim>\<open>int\<close>, which changes nothing. \<^verbatim>\<open>net/http\<close> sets \<^verbatim>\<open>ContentLength\<close> to \<open>-1\<close>
  when the response declares no length.
\<close>

definition Download :: "GoRepository \<Rightarrow> File \<Rightarrow> os_file \<Rightarrow> error option \<times> os_file \<times> event list" where
  "Download g dlFile outFile =
     (let u = url g @ ''/'' @ Filename dlFile in
      case NewRequest (client g) u of
        Some e \<Rightarrow> (Some e, outFile, [])
      | None \<Rightarrow>
         (case Do (client g) u of
            Inl e \<Rightarrow> (Some e, outFile, [Request u])
          | Inr resp \<Rightarrow>
             let tot = ContentLength resp in
             if tot = 0
             then (Some (Error ''unable to calculate progress: ContentLength is 0''), outFile, [Request u])
             else (case Download_loop tot 0 (Body resp) outFile of
                     (r, f, es) \<Rightarrow> (r, f, Request u # es))))"

section \<open>Paths and the file system\<close>

text \<open>
  A path after \<^verbatim>\<open>filepath.Clean\<close> (Unix): whether it is rooted, and its components.
  \<^verbatim>\<open>Clean\<close> drops empty and \<^verbatim>\<open>.\<close> components, lets \<^verbatim>\<open>..\<close> cancel the component
  before it, drops a \<^verbatim>\<open>..\<close> at the root and keeps it at the front of a relative path.
  The root and the current directory are the paths with no component.
\<close>

type_synonym path = "bool \<times> string list"

fun split_path :: "string \<Rightarrow> string list" where
  "split_path [] = [[]]"
| "split_path (c # cs) =
     (if c = CHR ''/'' then [] # split_path cs
      else (case split_path cs of [] \<Rightarrow> [[c]] | x # xs \<Rightarrow> (c # x) # xs))"

definition clean_step :: "bool \<Rightarrow> string list \<Rightarrow> string \<Rightarrow> string list" where
  "clean_step rooted stack c =
     (if c = [] \<or> c = ''.'' then stack
      else if c = ''..'' then
        (if stack \<noteq> [] \<and> last stack \<noteq> ''..'' then butlast stack
         else if rooted then stack else stack @ [c])
      else stack @ [c])"

definition Clean :: "string \<Rightarrow> path" where
  "Clean p = (let rooted = (p \<noteq> [] \<and> hd p = CHR ''/'')
              in (rooted, foldl (clean_step rooted) [] (split_path p)))"

text \<open>\<^verbatim>\<open>filepath.Join(dst, name)\<close> for a \<^verbatim>\<open>dst\<close> that is not empty.\<close>

definition Join :: "string \<Rightarrow> string \<Rightarrow> path" where
  "Join dst name = Clean (if name = [] then dst else dst @ ''/'' @ name)"

text \<open>
  The file system: what is at a path (a directory with its mode, or a regular file
  with its mode and bytes), the umask of the process, and where copying into a file
  fails (after how many bytes, with which error). Failures for lack of permission are
  not modelled: the tool runs as a user who may write the destination.
\<close>

datatype node = Dir "32 word" | Regular "32 word" "byte list"

record filesystem =
  nodes :: "path \<Rightarrow> node option"
  umask :: "32 word"
  copy_fault :: "path \<Rightarrow> (nat \<times> error) option"

definition node_at :: "filesystem \<Rightarrow> path \<Rightarrow> node option" where
  "node_at fs p = (if snd p = [] then Some (Dir 493) else nodes fs p)"

definition put :: "filesystem \<Rightarrow> path \<Rightarrow> node \<Rightarrow> filesystem" where
  "put fs p n = fs\<lparr>nodes := (nodes fs)(p \<mapsto> n)\<rparr>"

text \<open>\<^verbatim>\<open>os.Stat\<close>: an error exactly when nothing is at the path.\<close>

definition Stat :: "filesystem \<Rightarrow> path \<Rightarrow> error + node" where
  "Stat fs p = (case node_at fs p of None \<Rightarrow> Inl (Error ''no such file or directory'') | Some n \<Rightarrow> Inr n)"

text \<open>
  The mode that \<^verbatim>\<open>os.Mkdir\<close> and \<^verbatim>\<open>os.OpenFile\<close> hand to the system call for an
  \<^verbatim>\<open>os.FileMode\<close> (the library's \<^verbatim>\<open>syscallMode\<close>): the nine permission bits, and
  the setuid, setgid and sticky bits, which \<^verbatim>\<open>os.FileMode\<close> keeps at the bits 23, 22 and
  20 and the system at 04000, 02000 and 01000. The system then clears the permission
  bits that are set in the umask.
\<close>

definition syscallMode :: "32 word \<Rightarrow> 32 word" where
  "syscallMode i =
     (i AND 511) OR (if bit i 23 then 2048 else 0) OR (if bit i 22 then 1024 else 0)
       OR (if bit i 20 then 512 else 0)"

text \<open>
  \<^verbatim>\<open>os.Mkdir\<close> and \<^verbatim>\<open>os.MkdirAll\<close>, the latter as the Go library has it: nothing to
  do for a directory that exists, an error for a file in its place, else the parent
  first and then the directory itself. The path is given by its components in reverse,
  the last one first.
\<close>

definition Mkdir :: "filesystem \<Rightarrow> bool \<Rightarrow> string list \<Rightarrow> 32 word \<Rightarrow> error option \<times> filesystem" where
  "Mkdir fs rooted rcomps perm =
     (case node_at fs (rooted, rev rcomps) of
        Some n \<Rightarrow> (Some (Error ''file exists''), fs)
      | None \<Rightarrow>
         (case node_at fs (rooted, rev (tl rcomps)) of
            Some (Dir m) \<Rightarrow>
              (None, put fs (rooted, rev rcomps) (Dir (syscallMode perm AND NOT (umask fs AND 511))))
          | Some (Regular m d) \<Rightarrow> (Some (Error ''not a directory''), fs)
          | None \<Rightarrow> (Some (Error ''no such file or directory''), fs)))"

fun MkdirAll_rev :: "filesystem \<Rightarrow> bool \<Rightarrow> string list \<Rightarrow> 32 word \<Rightarrow> error option \<times> filesystem" where
  "MkdirAll_rev fs rooted [] perm = (None, fs)"
| "MkdirAll_rev fs rooted (c # rparent) perm =
     (case node_at fs (rooted, rev (c # rparent)) of
        Some (Dir m) \<Rightarrow> (None, fs)
      | Some (Regular m d) \<Rightarrow> (Some (Error ''not a directory''), fs)
      | None \<Rightarrow>
         (case MkdirAll_rev fs rooted rparent perm of
            (Some e, fs') \<Rightarrow> (Some e, fs')
          | (None, fs') \<Rightarrow> Mkdir fs' rooted (c # rparent) perm))"

definition MkdirAll :: "filesystem \<Rightarrow> path \<Rightarrow> 32 word \<Rightarrow> error option \<times> filesystem" where
  "MkdirAll fs p perm = MkdirAll_rev fs (fst p) (rev (snd p)) perm"

text \<open>
  \<^verbatim>\<open>os.OpenFile(target, os.O_CREATE|os.O_TRUNC|os.O_RDWR, perm)\<close>: a directory cannot
  be opened for writing; a file that exists is emptied and keeps its mode; a new file
  needs its parent directory and gets the permission, setuid, setgid and sticky bits of
  \<^verbatim>\<open>perm\<close>, the permission bits less the umask.
\<close>

definition OpenFile :: "filesystem \<Rightarrow> path \<Rightarrow> 32 word \<Rightarrow> error + filesystem" where
  "OpenFile fs p perm =
     (case node_at fs p of
        Some (Dir m) \<Rightarrow> Inl (Error ''is a directory'')
      | Some (Regular m d) \<Rightarrow> Inr (put fs p (Regular m []))
      | None \<Rightarrow>
         (case node_at fs (fst p, butlast (snd p)) of
            Some (Dir m) \<Rightarrow> Inr (put fs p (Regular (syscallMode perm AND NOT (umask fs AND 511)) []))
          | Some (Regular m d) \<Rightarrow> Inl (Error ''not a directory'')
          | None \<Rightarrow> Inl (Error ''no such file or directory'')))"

text \<open>
  \<^verbatim>\<open>io.Copy(f, tr)\<close> onto the file just opened at \<open>p\<close>: the bytes of the entry, or
  the bytes before the fault and its error.
\<close>

definition Copy :: "filesystem \<Rightarrow> path \<Rightarrow> byte list \<Rightarrow> error option \<times> filesystem" where
  "Copy fs p d =
     (case nodes fs p of
        Some (Regular m old) \<Rightarrow>
          (case copy_fault fs p of
             None \<Rightarrow> (None, put fs p (Regular m (old @ d)))
           | Some (n, e) \<Rightarrow> (Some e, put fs p (Regular m (old @ take n d))))
      | _ \<Rightarrow> (Some (Error ''bad file descriptor''), fs))"

section \<open>Install engine: Decompress (main.go)\<close>

text \<open>
  The fields of \<^verbatim>\<open>tar.Header\<close> that \<^verbatim>\<open>Decompress\<close> reads, and the two type
  flags it tests for.
\<close>

record tar_header =
  Name :: string
  Typeflag :: char
  Mode :: int

definition TypeReg :: char where
  "TypeReg = CHR ''0''"

definition TypeDir :: char where
  "TypeDir = CHR ''5''"

text \<open>
  The archive behind \<^verbatim>\<open>r io.ReadSeeker\<close>, as the gzip and tar readers decode it:
  whether the gzip header is rejected, the entries (header and bytes) in order, how the
  tar stream ends (\<^verbatim>\<open>io.EOF\<close>, or the error of a damaged or cut stream, which
  \<^verbatim>\<open>tr.Next()\<close> returns with a nil header), whether \<^verbatim>\<open>Seek\<close> fails, and how many
  entries the stream has already passed.
\<close>

record archive =
  gzip_fault :: "error option"
  entries :: "(tar_header \<times> byte list) list"
  ending :: error
  seek_fault :: "error option"
  pos :: nat

text \<open>In \<^verbatim>\<open>Decompress\<close> a panic is the dereference of a nil pointer.\<close>

text \<open>
  The counting loop. \<^verbatim>\<open>tr.Next()\<close> yields the entries left, then the ending. The
  loop leaves on \<^verbatim>\<open>io.EOF\<close> only; on any other error it goes on to read
  \<^verbatim>\<open>header.Typeflag\<close> of the nil header.
\<close>

fun count_loop :: "(tar_header \<times> byte list) list \<Rightarrow> error \<Rightarrow> int \<Rightarrow> int outcome" where
  "count_loop [] err totalFiles = (if err = EOF then Return totalFiles else Panic)"
| "count_loop ((header, d) # rest) err totalFiles =
     count_loop rest err (if Typeflag header = TypeReg then totalFiles + 1 else totalFiles)"

text \<open>
  The extraction loop: the error, the file system and the progress values. The
  progress call closes every iteration that did not return.
\<close>

fun extract_loop ::
  "string \<Rightarrow> (tar_header \<times> byte list) list \<Rightarrow> error \<Rightarrow> int \<Rightarrow> int \<Rightarrow> filesystem
     \<Rightarrow> error option \<times> filesystem \<times> float64 list" where
  "extract_loop dst [] err countFiles totalFiles fs =
     (if err = EOF then (None, fs, []) else (Some err, fs, []))"
| "extract_loop dst ((header, d) # rest) err countFiles totalFiles fs =
     (let target = Join dst (Name header) in
      if Typeflag header = TypeDir then
        (case Stat fs target of
           Inr n \<Rightarrow>
             (case extract_loop dst rest err countFiles totalFiles fs of
                (e, fs2, ps) \<Rightarrow> (e, fs2, fdiv countFiles totalFiles # ps))
         | Inl e \<Rightarrow>
             (case MkdirAll fs target 493 of
                (Some e1, fs1) \<Rightarrow> (Some e1, fs1, [])
              | (None, fs1) \<Rightarrow>
                 (case extract_loop dst rest err countFiles totalFiles fs1 of
                    (e, fs2, ps) \<Rightarrow> (e, fs2, fdiv countFiles totalFiles # ps))))
      else if Typeflag header = TypeReg then
        (case OpenFile fs target (word_of_int (Mode header)) of
           Inl e \<Rightarrow> (Some e, fs, [])
         | Inr fs0 \<Rightarrow>
            (case Copy fs0 target d of
               (Some e, fs1) \<Rightarrow> (Some e, fs1, [])
             | (None, fs1) \<Rightarrow>
                (case extract_loop dst rest err (countFiles + 1) totalFiles fs1 of
                   (e, fs2, ps) \<Rightarrow> (e, fs2, fdiv (countFiles + 1) totalFiles # ps))))
      else
        (case extract_loop dst rest err countFiles totalFiles fs of
           (e, fs2, ps) \<Rightarrow> (e, fs2, fdiv countFiles totalFiles # ps)))"

text \<open>
  \<^verbatim>\<open>func Decompress(dst string, r io.ReadSeeker, onProgress func(float64)) error\<close>.
  \<^verbatim>\<open>os.MkdirAll\<close> of the empty path fails. The counting loop leaves the stream
  at its end; \<^verbatim>\<open>r.Seek(0, io.SeekStart)\<close> puts it back to its first entry;
  \<^verbatim>\<open>gzr.Reset(r)\<close> reads the gzip header again.
\<close>

definition Decompress :: "string \<Rightarrow> archive \<Rightarrow> filesystem \<Rightarrow> error option outcome \<times> filesystem \<times> float64 list" where
  "Decompress dst r fs =
     (case (if dst = [] then (Some (Error ''no such file or directory''), fs)
            else MkdirAll fs (Clean dst) 493) of
        (Some e, fs1) \<Rightarrow> (Return (Some e), fs1, [])
      | (None, fs1) \<Rightarrow>
         (case gzip_fault r of
            Some e \<Rightarrow> (Return (Some e), fs1, [])
          | None \<Rightarrow>
             (case count_loop (drop (pos r) (entries r)) (ending r) 0 of
                Panic \<Rightarrow> (Panic, fs1, [])
              | Return totalFiles \<Rightarrow>
                 (let r1 = r\<lparr>pos := length (entries r)\<rparr> in
                  case seek_fault r1 of
                    Some e \<Rightarrow> (Return (Some e), fs1, [])
                  | None \<Rightarrow>
                     (let r2 = r1\<lparr>pos := 0\<rparr> in
                      case gzip_fault r2 of
                        Some e \<Rightarrow> (Return (Some e), fs1, [])
                      | None \<Rightarrow>
                         (case extract_loop dst (drop (pos r2) (entries r2)) (ending r2) 0 totalFiles fs1 of
                            (e, fs2, ps) \<Rightarrow> (Return e, fs2, ps)))))))"

section \<open>Orchestrator (tui.go)\<close>

datatype State = Choosing | Downloading | Extracting | Quitting | Completed

text \<open>
  The messages \<^verbatim>\<open>Update\<close> tells apart, and one constructor for every other message
  of the toolkit. \<^verbatim>\<open>errMsg\<close> always wraps an error that is not nil.
\<close>

datatype msg =
    WindowSizeMsg nat
  | KeyMsg string
  | statusMsg State
  | errMsg error
  | doneMsg
  | progressMsg float64
  | FrameMsg
  | OtherMsg

text \<open>
  The commands \<^verbatim>\<open>Update\<close> returns, by name: the closures of \<^verbatim>\<open>statusCmd\<close>,
  \<^verbatim>\<open>downloadCmd\<close>, \<^verbatim>\<open>extractCmd\<close> and \<^verbatim>\<open>finalPause\<close>, the toolkit's
  \<^verbatim>\<open>tea.Quit\<close>, \<^verbatim>\<open>tea.Sequence\<close> and \<^verbatim>\<open>tea.Batch\<close>, and the commands of the two
  widgets, which stay opaque.
\<close>

datatype cmd =
    Quit
  | Sequence "cmd list"
  | Batch "cmd list"
  | StatusCmd State
  | DownloadCmd
  | ExtractCmd
  | FinalPause
  | WidgetCmd nat

text \<open>
  \<^verbatim>\<open>type model struct\<close>. The list and the progress bar are widgets of the toolkit:
  their states are type parameters. \<^verbatim>\<open>ctx\<close> is \<^verbatim>\<open>context.Background()\<close> and is
  left out. \<^verbatim>\<open>file\<close> is a pointer: \<open>None\<close> is nil.
\<close>

record ('l, 'p) model =
  err :: "error option"
  list :: 'l
  choice :: string
  progress :: 'p
  repo :: GoRepository
  versions :: "Release list"
  "file" :: "os_file option"
  status :: State

text \<open>
  What \<^verbatim>\<open>Update\<close> asks of the widgets: the selected item of the list (none when the
  list is empty), \<^verbatim>\<open>list.SetWidth\<close>, \<^verbatim>\<open>list.Update\<close>, \<^verbatim>\<open>progress.SetPercent\<close> and
  \<^verbatim>\<open>progress.Update\<close>.
\<close>

record ('l, 'p) toolkit =
  SelectedItem :: "'l \<Rightarrow> string option"
  SetWidth :: "nat \<Rightarrow> 'l \<Rightarrow> 'l"
  list_Update :: "msg \<Rightarrow> 'l \<Rightarrow> 'l \<times> cmd option"
  SetPercent :: "float64 \<Rightarrow> 'p \<Rightarrow> 'p \<times> cmd option"
  progress_Update :: "msg \<Rightarrow> 'p \<Rightarrow> 'p \<times> cmd option"

text \<open>\<^verbatim>\<open>msg >= 1.0\<close> on a \<^verbatim>\<open>float64\<close>: false for NaN.\<close>

fun ge_one :: "float64 \<Rightarrow> bool" where
  "ge_one (Finite x) = (1 \<le> x)"
| "ge_one PosInf = True"
| "ge_one NegInf = False"
| "ge_one NaN = False"

text \<open>\<^verbatim>\<open>tea.Batch(cmds...)\<close> of commands that may be nil.\<close>

definition batch :: "cmd option list \<Rightarrow> cmd option" where
  "batch cmds = Some (Batch (List.map_filter id cmds))"

text \<open>\<^verbatim>\<open>func (m model) Update(msg tea.Msg) (tea.Model, tea.Cmd)\<close>; a nil command is \<open>None\<close>.\<close>

fun Update :: "('l, 'p) toolkit \<Rightarrow> ('l, 'p) model \<Rightarrow> msg \<Rightarrow> ('l, 'p) model \<times> cmd option" where
  "Update tk m (WindowSizeMsg w) = (m\<lparr>list := SetWidth tk w (list m)\<rparr>, None)"
| "Update tk m (KeyMsg keypress) =
     (if keypress = ''ctrl+c'' then (m\<lparr>status := Quitting\<rparr>, Some Quit)
      else if keypress = ''enter'' then
        (case SelectedItem tk (list m) of
           Some i \<Rightarrow> m\<lparr>choice := i\<rparr>
         | None \<Rightarrow> m,
         Some (Sequence [StatusCmd Downloading, DownloadCmd, StatusCmd Extracting, ExtractCmd]))
      else (case list_Update tk (KeyMsg keypress) (list m) of (l, c) \<Rightarrow> (m\<lparr>list := l\<rparr>, c)))"
| "Update tk m (statusMsg s) = (m\<lparr>status := s\<rparr>, None)"
| "Update tk m (errMsg e) = (m\<lparr>err := Some e\<rparr>, Some Quit)"
| "Update tk m doneMsg = (m\<lparr>status := Completed\<rparr>, Some (Sequence [FinalPause, Quit]))"
| "Update tk m (progressMsg x) =
     (case SetPercent tk x (progress m) of
        (p, c) \<Rightarrow>
          (m\<lparr>progress := p\<rparr>,
           batch ((if ge_one x then [Some (Sequence [FinalPause])] else []) @ [c])))"
| "Update tk m FrameMsg =
     (case progress_Update tk FrameMsg (progress m) of (p, c) \<Rightarrow> (m\<lparr>progress := p\<rparr>, c))"
| "Update tk m OtherMsg =
     (case list_Update tk OtherMsg (list m) of (l, c) \<Rightarrow> (m\<lparr>list := l\<rparr>, c))"

text \<open>
  The loop of \<^verbatim>\<open>downloadCmd\<close> over \<^verbatim>\<open>m.versions\<close>: every release whose version is
  the choice and that has a file for linux/amd64 overwrites \<^verbatim>\<open>dlf\<close> with the first
  such file (\<open>vs\<close> and \<open>ch\<close> stand for \<^verbatim>\<open>m.versions\<close> and \<^verbatim>\<open>m.choice\<close>).
\<close>

fun dlf_loop :: "File \<Rightarrow> Release list \<Rightarrow> string \<Rightarrow> File" where
  "dlf_loop dlf [] ch = dlf"
| "dlf_loop dlf (v # vs) ch =
     (if ch = Release.Version v then
        (case Filter (Files v) [\<lambda>f. Os f = ''linux'', \<lambda>f. Arch f = ''amd64''] of
           [] \<Rightarrow> dlf_loop dlf vs ch
         | f # l \<Rightarrow> dlf_loop f vs ch)
      else dlf_loop dlf vs ch)"

text \<open>
  What the commands need of the operating system: the outcome of
  \<^verbatim>\<open>os.CreateTemp\<close>, whether \<^verbatim>\<open>Seek\<close> on the temporary file and
  \<^verbatim>\<open>os.RemoveAll\<close> fail, and how the bytes of a file decode as a gzipped tar archive.
\<close>

record os =
  CreateTemp :: "error + os_file"
  Seek_fault :: "error option"
  RemoveAll_fault :: "error option"
  decode :: "byte list \<Rightarrow> archive"

text \<open>
  The closure of \<^verbatim>\<open>downloadCmd(m *model)\<close>: the message it returns (\<open>None\<close> for nil),
  the model behind the pointer, and the events. On a failed \<^verbatim>\<open>os.CreateTemp\<close> the
  file returned, and so \<^verbatim>\<open>m.file\<close>, is nil.
\<close>

definition downloadCmd :: "os \<Rightarrow> ('l, 'p) model \<Rightarrow> msg option \<times> ('l, 'p) model \<times> event list" where
  "downloadCmd sys m =
     (let dlf = dlf_loop zero_File (versions m) (choice m) in
      if dlf = zero_File then (Some (errMsg (Error ''did not found a matching file'')), m, [])
      else
        (case CreateTemp sys of
           Inl e \<Rightarrow> (Some (errMsg e), m\<lparr>file := None\<rparr>, [TempFile])
         | Inr tmp \<Rightarrow>
            (case Download (repo m) dlf tmp of
               (Some e, f, evs) \<Rightarrow> (Some (errMsg e), m\<lparr>file := Some f\<rparr>, TempFile # evs)
             | (None, f, evs) \<Rightarrow> (None, m\<lparr>file := Some f\<rparr>, TempFile # evs))))"

text \<open>\<^verbatim>\<open>os.RemoveAll\<close>: the path and everything below it are gone.\<close>

definition RemoveAll :: "filesystem \<Rightarrow> path \<Rightarrow> filesystem" where
  "RemoveAll fs p =
     fs\<lparr>nodes := (\<lambda>q. if fst q = fst p \<and> prefix (snd p) (snd q) then None else nodes fs q)\<rparr>"

text \<open>
  The closure of \<^verbatim>\<open>extractCmd(m *model)\<close>: the message it returns unless
  \<^verbatim>\<open>Decompress\<close> panics, the file system and the progress values. \<^verbatim>\<open>Seek\<close> on a
  nil \<^verbatim>\<open>*os.File\<close> returns \<^verbatim>\<open>os.ErrInvalid\<close>. After the seek the archive is read
  from its start.
\<close>

definition extractCmd :: "os \<Rightarrow> ('l, 'p) model \<Rightarrow> filesystem \<Rightarrow> msg outcome \<times> filesystem \<times> event list" where
  "extractCmd sys m fs =
     (case file m of
        None \<Rightarrow> (Return (errMsg (Error ''invalid argument'')), fs, [])
      | Some f \<Rightarrow>
         (case Seek_fault sys of
            Some e \<Rightarrow> (Return (errMsg e), fs, [])
          | None \<Rightarrow>
             (case RemoveAll_fault sys of
                Some e \<Rightarrow> (Return (errMsg e), fs, [])
              | None \<Rightarrow>
                 (case Decompress ''/usr/local'' ((decode sys (content f))\<lparr>pos := 0\<rparr>)
                         (RemoveAll fs (Clean ''/usr/local/go'')) of
                    (Panic, fs2, ps) \<Rightarrow> (Panic, fs2, map Progress ps)
                  | (Return (Some e), fs2, ps) \<Rightarrow> (Return (errMsg e), fs2, map Progress ps)
                  | (Return None, fs2, ps) \<Rightarrow> (Return doneMsg, fs2, map Progress ps)))))"

text \<open>
  \<^verbatim>\<open>tea.Sequence\<close> runs its commands one at a time, in order, and sends the message
  of each to the program; it does not look at the messages. \<^verbatim>\<open>main\<close> sets
  \<^verbatim>\<open>repo.onProgress\<close> to send every progress value to the program as a
  \<^verbatim>\<open>progressMsg\<close>. Here: the messages sent (a nil message is dropped), the model
  behind the pointer \<^verbatim>\<open>&m\<close> that \<^verbatim>\<open>downloadCmd\<close> and \<^verbatim>\<open>extractCmd\<close> share, the
  file system, the events, and whether a command panicked, which ends the run.
  \<^verbatim>\<open>finalPause\<close> returns nil; the commands of the toolkit send nothing that
  \<^verbatim>\<open>Update\<close> tells apart.
\<close>

fun run_sequence ::
  "os \<Rightarrow> cmd list \<Rightarrow> ('l, 'p) model \<Rightarrow> filesystem
     \<Rightarrow> msg list \<times> ('l, 'p) model \<times> filesystem \<times> event list \<times> bool" where
  "run_sequence sys [] m fs = ([], m, fs, [], False)"
| "run_sequence sys (StatusCmd s # cmds) m fs =
     (case run_sequence sys cmds m fs of
        (msgs, m', fs', evs, p) \<Rightarrow> (statusMsg s # msgs, m', fs', evs, p))"
| "run_sequence sys (DownloadCmd # cmds) m fs =
     (case downloadCmd sys m of
        (r, m1, evs1) \<Rightarrow>
          (case run_sequence sys cmds m1 fs of
             (msgs, m', fs', evs, p) \<Rightarrow>
               (map progressMsg (progress_of evs1) @ (case r of None \<Rightarrow> [] | Some x \<Rightarrow> [x]) @ msgs,
                m', fs', evs1 @ evs, p)))"
| "run_sequence sys (ExtractCmd # cmds) m fs =
     (case extractCmd sys m fs of
        (Panic, fs1, evs1) \<Rightarrow> (map progressMsg (progress_of evs1), m, fs1, evs1, True)
      | (Return x, fs1, evs1) \<Rightarrow>
          (case run_sequence sys cmds m fs1 of
             (msgs, m', fs', evs, p) \<Rightarrow>
               (map progressMsg (progress_of evs1) @ x # msgs, m', fs', evs1 @ evs, p)))"
| "run_sequence sys (c # cmds) m fs = run_sequence sys cmds m fs"

text \<open>The program's model after \<^verbatim>\<open>Update\<close> has taken the messages in order.\<close>

fun deliver :: "('l, 'p) toolkit \<Rightarrow> ('l, 'p) model \<Rightarrow> msg list \<Rightarrow> ('l, 'p) model" where
  "deliver tk m [] = m"
| "deliver tk m (x # msgs) = deliver tk (fst (Update tk m x)) msgs"

section \<open>What a transfer looks like from outside\<close>

text \<open>
  A transfer is a sequence of rounds. A round is a read; when the read returned bytes,
  the write of exactly these bytes (at most 32 KiB) and then the progress event, whose
  value is the number of bytes written so far over the declared total.
\<close>

fun transfer_trace :: "int \<Rightarrow> int \<Rightarrow> event list \<Rightarrow> bool" where
  "transfer_trace tot dl [] = True"
| "transfer_trace tot dl (ReadCall d e # WriteCall d' nw ew # Progress p # rest) =
     (d \<noteq> [] \<and> length d \<le> 32 * 1024 \<and> d' = d \<and> nw \<le> length d
      \<and> p = fdiv (dl + int nw) tot \<and> transfer_trace tot (dl + int nw) rest)"
| "transfer_trace tot dl (ReadCall d e # rest) = (d = [] \<and> transfer_trace tot dl rest)"
| "transfer_trace tot dl (ev # rest) = False"

text \<open>
  Nothing is asked of the stream after a read that reported an error (\<^verbatim>\<open>io.EOF\<close>
  included), and nothing is read or written after a write that failed.
\<close>

fun is_read :: "event \<Rightarrow> bool" where
  "is_read (ReadCall d e) = True"
| "is_read ev = False"

fun is_write :: "event \<Rightarrow> bool" where
  "is_write (WriteCall d nw ew) = True"
| "is_write ev = False"

fun stops :: "event list \<Rightarrow> bool" where
  "stops [] = True"
| "stops (ReadCall d e # rest) = ((e = None \<or> list_all (\<lambda>ev. \<not> is_read ev) rest) \<and> stops rest)"
| "stops (WriteCall d nw ew # rest) =
     ((ew = None \<or> list_all (\<lambda>ev. \<not> is_read ev \<and> \<not> is_write ev) rest) \<and> stops rest)"
| "stops (ev # rest) = stops rest"

text \<open>
  The error a trace ends with: that of the failed write if there is one, else that of
  the read that failed with something other than \<^verbatim>\<open>io.EOF\<close>.
\<close>

fun write_failure :: "event list \<Rightarrow> error option" where
  "write_failure [] = None"
| "write_failure (WriteCall d nw (Some e) # rest) = Some e"
| "write_failure (ev # rest) = write_failure rest"

fun read_failure :: "event list \<Rightarrow> error option" where
  "read_failure [] = None"
| "read_failure (ReadCall d (Some e) # rest) = (if e \<noteq> EOF then Some e else read_failure rest)"
| "read_failure (ev # rest) = read_failure rest"

definition failure_of :: "event list \<Rightarrow> error option" where
  "failure_of evs = (case write_failure evs of Some e \<Rightarrow> Some e | None \<Rightarrow> read_failure evs)"

text \<open>The bytes that reached the destination, in order.\<close>

fun written :: "event list \<Rightarrow> byte list" where
  "written [] = []"
| "written (WriteCall d nw ew # rest) = take nw d @ written rest"
| "written (ev # rest) = written rest"

text \<open>
  What a stream delivers when read to its end: the bytes up to the first error, and
  that error (\<^verbatim>\<open>io.EOF\<close> for a stream that ends cleanly).
\<close>

fun stream_data :: "reader \<Rightarrow> byte list" where
  "stream_data [] = []"
| "stream_data ((d, None) # rest) = d @ stream_data rest"
| "stream_data ((d, Some e) # rest) = d"

fun stream_end :: "reader \<Rightarrow> error" where
  "stream_end [] = EOF"
| "stream_end ((d, None) # rest) = stream_end rest"
| "stream_end ((d, Some e) # rest) = e"

section \<open>What an installation leaves behind\<close>

text \<open>The number of regular-file entries of an archive.\<close>

definition regular_count :: "(tar_header \<times> byte list) list \<Rightarrow> int" where
  "regular_count es = int (length (filter (\<lambda>(header, d). Typeflag header = TypeReg) es))"



section \<open>The ordering rule in the words of the specification\<close>










section \<open>The selection rule, and a sample run\<close>

text \<open>The two predicates of \<^verbatim>\<open>downloadCmd\<close>, as one.\<close>

definition linux_amd64 :: "File \<Rightarrow> bool" where
  "linux_amd64 f \<longleftrightarrow> Os f = ''linux'' \<and> Arch f = ''amd64''"

text \<open>
  For a catalog and a choice, the first linux/amd64 file of every release whose version
  is the choice and that has such a file, in the order of the catalog.
\<close>

definition candidates :: "Release list \<Rightarrow> string \<Rightarrow> File list" where
  "candidates vs ch =
     List.map_filter (\<lambda>v. if ch = Release.Version v then find linux_amd64 (Files v) else None) vs"

text \<open>
  A catalog with one release, widgets that do nothing, a server that refuses the
  connection, an operating system that hands out an empty temporary file (which does not
  decode as gzip: \<^verbatim>\<open>gzip.NewReader\<close> returns \<^verbatim>\<open>io.EOF\<close>), and a file system with an
  installation in place.
\<close>

definition still_widgets :: "(unit, unit) toolkit" where
  "still_widgets =
     \<lparr>SelectedItem = (\<lambda>l. Some ''go1.20.2''), SetWidth = (\<lambda>w l. l),
      list_Update = (\<lambda>x l. (l, None)), SetPercent = (\<lambda>x p. (p, None)),
      progress_Update = (\<lambda>x p. (p, None))\<rparr>"

definition go1_20_2 :: Release where
  "go1_20_2 =
     \<lparr>Version = ''go1.20.2'', Stable = True,
      Files = [zero_File\<lparr>Filename := ''go1.20.2.windows-amd64.msi'', Os := ''windows'', Arch := ''amd64''\<rparr>,
               zero_File\<lparr>Filename := ''go1.20.2.linux-amd64.tar.gz'', Os := ''linux'', Arch := ''amd64''\<rparr>]\<rparr>"

text \<open>
  A release of the same version with nothing for linux/amd64, and one with another file
  for linux/amd64.
\<close>

definition go1_20_2_windows :: Release where
  "go1_20_2_windows =
     \<lparr>Version = ''go1.20.2'', Stable = True,
      Files = [zero_File\<lparr>Filename := ''go1.20.2.windows-amd64.msi'', Os := ''windows'', Arch := ''amd64''\<rparr>]\<rparr>"

definition go1_20_2_again :: Release where
  "go1_20_2_again =
     \<lparr>Version = ''go1.20.2'', Stable = False,
      Files = [zero_File\<lparr>Filename := ''go1.20.2.linux-amd64.zip'', Os := ''linux'', Arch := ''amd64''\<rparr>]\<rparr>"

definition unreachable :: http_client where
  "unreachable = \<lparr>NewRequest = (\<lambda>u. None), Do = (\<lambda>u. Inl (Error ''connection refused''))\<rparr>"

definition choosing :: "(unit, unit) model" where
  "choosing =
     \<lparr>err = None, list = (), choice = [], progress = (),
      repo = \<lparr>url = ''https://go.dev/dl'', client = unreachable\<rparr>,
      versions = [go1_20_2], file = None, status = Choosing\<rparr>"

definition plain_os :: os where
  "plain_os =
     \<lparr>CreateTemp = Inr \<lparr>content = [], write_faults = []\<rparr>, Seek_fault = None,
      RemoveAll_fault = None,
      decode = (\<lambda>bytes. \<lparr>gzip_fault = Some EOF, entries = [], ending = EOF, seek_fault = None, pos = 0\<rparr>)\<rparr>"

definition installed :: filesystem where
  "installed =
     \<lparr>nodes = [(True, [''usr'']) \<mapsto> Dir 493, (True, [''usr'', ''local'']) \<mapsto> Dir 493,
               (True, [''usr'', ''local'', ''go'']) \<mapsto> Dir 493,
               (True, [''usr'', ''local'', ''go'', ''VERSION'']) \<mapsto> Regular 420 [1, 2, 3]],
      umask = 18, copy_fault = (\<lambda>p. None)\<rparr>"

section \<open>Properties of Filter\<close>

lemma isSpecified_loop_eq: "isSpecified_loop acc specs v = (acc \<and> list_all (\<lambda>spec. spec v) specs)"
  by (induction specs arbitrary: acc) auto

lemma Filter_loop_eq:
  "Filter_loop acc files specs = acc @ filter (\<lambda>v. list_all (\<lambda>spec. spec v) specs) files"
  by (induction files arbitrary: acc) (simp_all add: isSpecified_loop_eq)

lemma Filter_eq: "Filter files specs = filter (\<lambda>v. list_all (\<lambda>spec. spec v) specs) files"
  by (simp add: Filter_def Filter_loop_eq)

text \<open>
  Claim C10. For every file list and every predicate set, \<open>Filter\<close> returns exactly the
  files that satisfy all predicates, in their original relative order and each input
  position at most once (the result is a subsequence of the input, so no file occurs in
  it more often than in the input); with no predicate at all it returns the whole input.
\<close>

theorem Filter_subsequence:
  "Filter files specs = filter (\<lambda>v. list_all (\<lambda>spec. spec v) specs) files
   \<and> subseq (Filter files specs) files
   \<and> count_list (Filter files specs) f \<le> count_list files f
   \<and> Filter files [] = files"
proof -
  let ?P = "\<lambda>v. list_all (\<lambda>spec. spec v) specs"
  have count: "count_list (filter ?P xs) f \<le> count_list xs f" for xs
    by (induction xs) auto
  have "subseq (filter ?P files) files"
    by (rule subseq_filter_left)
  moreover have "Filter files [] = files"
    by (simp add: Filter_eq)
  ultimately show ?thesis
    using count [of files] by (simp add: Filter_eq)
qed

theorem Filter_subsequence_witness:
  "Filter [zero_File\<lparr>Os := ''linux'', Arch := ''amd64''\<rparr>, zero_File\<lparr>Os := ''linux'', Arch := ''arm64''\<rparr>,
           zero_File\<lparr>Os := ''windows'', Arch := ''amd64''\<rparr>]
     [\<lambda>f. Arch f = ''amd64'', \<lambda>f. Os f = ''linux'']
   = [zero_File\<lparr>Os := ''linux'', Arch := ''amd64''\<rparr>]"
  using Filter_subsequence [of "[zero_File\<lparr>Os := ''linux'', Arch := ''amd64''\<rparr>,
           zero_File\<lparr>Os := ''linux'', Arch := ''arm64''\<rparr>,
           zero_File\<lparr>Os := ''windows'', Arch := ''amd64''\<rparr>]"
     "[\<lambda>f. Arch f = ''amd64'', \<lambda>f. Os f = ''linux'']" zero_File]
  by (simp add: zero_File_def)

section \<open>Properties of Download\<close>

declare Download_loop.simps [simp del] Read.simps [simp del] Write.simps [simp del]

text \<open>One iteration of the loop, by cases.\<close>

lemma Download_loop_cases [consumes 1, case_names empty_stop empty_cont write_fail read_stop cont]:
  assumes "Download_loop tot dl body out = (r, f, evs)"
  obtains
    e body' where "Read body buf = (([], Some e), body')"
      "r = (if e \<noteq> EOF then Some e else None)" "f = out" "evs = [ReadCall [] (Some e)]"
  | body' es where "Read body buf = (([], None), body')"
      "Download_loop tot dl body' out = (r, f, es)" "evs = ReadCall [] None # es"
  | chunk errRead body' nw e out' where "Read body buf = ((chunk, errRead), body')" "chunk \<noteq> []"
      "Write out chunk = ((nw, Some e), out')" "r = Some e" "f = out'"
      "evs = [ReadCall chunk errRead, WriteCall chunk nw (Some e), Progress (fdiv (dl + int nw) tot)]"
  | chunk e body' nw out' where "Read body buf = ((chunk, Some e), body')" "chunk \<noteq> []"
      "Write out chunk = ((nw, None), out')" "r = (if e \<noteq> EOF then Some e else None)" "f = out'"
      "evs = [ReadCall chunk (Some e), WriteCall chunk nw None, Progress (fdiv (dl + int nw) tot)]"
  | chunk body' nw out' es where "Read body buf = ((chunk, None), body')" "chunk \<noteq> []"
      "Write out chunk = ((nw, None), out')"
      "Download_loop tot (dl + int nw) body' out' = (r, f, es)"
      "evs = [ReadCall chunk None, WriteCall chunk nw None, Progress (fdiv (dl + int nw) tot)] @ es"
proof -
  obtain chunk errRead body' where R: "Read body buf = ((chunk, errRead), body')"
    by (metis prod.exhaust)
  obtain nw errWrite out' where W: "Write out chunk = ((nw, errWrite), out')"
    by (metis prod.exhaust)
  obtain r' f' es where D1: "Download_loop tot dl body' out = (r', f', es)"
    by (metis prod.exhaust)
  obtain r'' f'' es' where D2: "Download_loop tot (dl + int nw) body' out' = (r'', f'', es')"
    by (metis prod.exhaust)
  from assms have *: "(if 0 < length chunk then
            (let downloaded' = dl + int nw;
                 evs = [ReadCall chunk errRead, WriteCall chunk nw errWrite,
                        Progress (fdiv downloaded' tot)]
             in (case errWrite of
                   Some e \<Rightarrow> (Some e, out', evs)
                 | None \<Rightarrow>
                    (case errRead of
                       Some e \<Rightarrow> (if e \<noteq> EOF then Some e else None, out', evs)
                     | None \<Rightarrow> (r'', f'', evs @ es'))))
          else
            (case errRead of
               Some e \<Rightarrow> (if e \<noteq> EOF then Some e else None, out, [ReadCall chunk errRead])
             | None \<Rightarrow> (r', f', ReadCall chunk errRead # es))) = (r, f, evs)"
    by (auto simp add: Download_loop.simps [of tot dl body out] R W D1 D2 Let_def
          split: option.splits if_splits)
  show thesis
  proof (cases "chunk = []")
    case True
    show thesis
    proof (cases errRead)
      case None
      with True * have "r = r' \<and> f = f' \<and> evs = ReadCall [] None # es" by auto
      with True None R D1 that(2) [of body' es] show thesis by blast
    next
      case (Some e)
      with True * have "r = (if e \<noteq> EOF then Some e else None) \<and> f = out
          \<and> evs = [ReadCall [] (Some e)]" by auto
      with True Some R that(1) [of e body'] show thesis by blast
    qed
  next
    case False
    show thesis
    proof (cases errWrite)
      case (Some e)
      with False * have "r = Some e \<and> f = out' \<and> evs = [ReadCall chunk errRead,
          WriteCall chunk nw (Some e), Progress (fdiv (dl + int nw) tot)]"
        by (auto simp: Let_def)
      with False Some R W that(3) [of chunk errRead body' nw e out'] show thesis by blast
    next
      case None
      show thesis
      proof (cases errRead)
        case (Some e)
        with None False * have "r = (if e \<noteq> EOF then Some e else None) \<and> f = out'
            \<and> evs = [ReadCall chunk (Some e), WriteCall chunk nw None,
                       Progress (fdiv (dl + int nw) tot)]"
          by (auto simp: Let_def)
        with None Some False R W that(4) [of chunk e body' nw out'] show thesis by blast
      next
        case N2: None
        with None False * have "r = r'' \<and> f = f''
            \<and> evs = [ReadCall chunk None, WriteCall chunk nw None,
                       Progress (fdiv (dl + int nw) tot)] @ es'"
          by (auto simp: Let_def)
        with None N2 False R W D2 that(5) [of chunk body' nw out' es'] show thesis by blast
      qed
    qed
  qed
qed


lemma transfer_trace_empty_read [simp]:
  "transfer_trace tot dl (ReadCall [] e # es) = transfer_trace tot dl es"
  by (cases "(tot, dl, ReadCall [] e # es)" rule: transfer_trace.cases) auto

lemma Read_length: "Read body n = ((chunk, e), body') \<Longrightarrow> length chunk \<le> n"
  by (cases body) (auto simp: Read.simps split: if_splits)

lemma Write_result:
  assumes "Write out p = ((nw, e), out')"
  shows "nw \<le> length p" and "content out' = content out @ take nw p"
    and "e = None \<Longrightarrow> nw = length p"
  using assms by (auto simp: Write.simps min_def split: list.splits option.splits)

lemma Download_loop_trace:
  "Download_loop tot dl body out = (r, f, evs) \<Longrightarrow>
     transfer_trace tot dl evs \<and> stops evs \<and> r = failure_of evs
     \<and> content f = content out @ written evs"
proof (induction "pending body" arbitrary: dl body out r f evs rule: less_induct)
  case less
  from less.prems show ?case
  proof (cases rule: Download_loop_cases)
    case (empty_stop e body')
    then show ?thesis by (simp add: failure_of_def)
  next
    case (empty_cont body' es)
    have "pending body' < pending body"
      using empty_cont(1) by (rule Read_pending) (simp add: buf_def)
    from less.hyps [OF this empty_cont(2)] empty_cont(3) show ?thesis
      by (auto simp add: failure_of_def split: option.splits)
  next
    case (write_fail chunk errRead body' nw e out')
    with Read_length [OF write_fail(1)] Write_result [OF write_fail(3)] show ?thesis
      by (cases errRead) (auto simp add: failure_of_def buf_def split: option.splits)
  next
    case (read_stop chunk e body' nw out')
    with Read_length [OF read_stop(1)] Write_result [OF read_stop(3)] show ?thesis
      by (auto simp add: failure_of_def buf_def split: option.splits)
  next
    case (cont chunk body' nw out' es)
    have "pending body' < pending body"
      using cont(1) by (rule Read_pending) (simp add: buf_def)
    from less.hyps [OF this cont(4)] cont(2,5) Read_length [OF cont(1)] Write_result [OF cont(3)]
    show ?thesis
      by (auto simp add: failure_of_def buf_def split: option.splits)
  qed
qed


lemma Read_stream:
  assumes "Read body n = ((chunk, e), body')" and "0 < n"
  shows "e = None \<Longrightarrow> stream_data body = chunk @ stream_data body' \<and> stream_end body = stream_end body'"
    and "e = Some x \<Longrightarrow> stream_data body = chunk \<and> stream_end body = x"
proof -
  show "e = None \<Longrightarrow> stream_data body = chunk @ stream_data body' \<and> stream_end body = stream_end body'"
  proof (cases body)
    case Nil
    assume "e = None"
    with assms Nil show ?thesis by (simp add: Read.simps)
  next
    case (Cons b rest)
    assume e: "e = None"
    obtain d e0 where b: "b = (d, e0)" by (cases b)
    show ?thesis
    proof (cases "length d \<le> n")
      case True
      with assms Cons b e show ?thesis by (auto simp: Read.simps)
    next
      case False
      with assms Cons b e have "chunk = take n d" "body' = (drop n d, e0) # rest"
        by (auto simp: Read.simps)
      moreover have "stream_data ((d, e0) # rest) = take n d @ stream_data ((drop n d, e0) # rest)"
        by (cases e0) (simp_all flip: append_assoc)
      ultimately have "stream_data body = chunk @ stream_data body'"
        using Cons b by simp
      moreover have "stream_end body = stream_end body'"
        using Cons b \<open>body' = (drop n d, e0) # rest\<close> by (cases e0) simp_all
      ultimately show ?thesis by simp
    qed
  qed
  show "e = Some x \<Longrightarrow> stream_data body = chunk \<and> stream_end body = x"
  proof (cases body)
    case Nil
    assume "e = Some x"
    with assms Nil show ?thesis by (auto simp add: Read.simps)
  next
    case (Cons b rest)
    assume e: "e = Some x"
    obtain d e0 where b: "b = (d, e0)" by (cases b)
    from assms Cons b e show ?thesis
      by (auto simp: Read.simps split: if_splits)
  qed
qed

lemma Write_no_fault:
  assumes "list_all (\<lambda>x. x = None) (write_faults out)"
  shows "\<exists>out'. Write out p = ((length p, None), out') \<and> content out' = content out @ p
           \<and> list_all (\<lambda>x. x = None) (write_faults out')"
  using assms by (auto simp: Write.simps split: list.splits option.splits)

lemma Download_loop_complete:
  assumes "list_all (\<lambda>x. x = None) (write_faults out)"
    and "Download_loop tot dl body out = (r, f, evs)"
  shows "r = (if stream_end body = EOF then None else Some (stream_end body))
     \<and> content f = content out @ stream_data body
     \<and> (stream_data body = [] \<longrightarrow> progress_of evs = [])
     \<and> (stream_data body \<noteq> [] \<longrightarrow>
          progress_of evs \<noteq> [] \<and> last (progress_of evs) = fdiv (dl + int (length (stream_data body))) tot)"
  using assms
proof (induction "pending body" arbitrary: dl body out r f evs rule: less_induct)
  case less
  have pos: "0 < buf" by (simp add: buf_def)
  from less.prems(2) show ?case
  proof (cases rule: Download_loop_cases)
    case (empty_stop e body')
    with Read_stream(2) [OF empty_stop(1) pos, of e] show ?thesis by auto
  next
    case (empty_cont body' es)
    have "pending body' < pending body"
      using empty_cont(1) by (rule Read_pending) (simp add: buf_def)
    from less.hyps [OF this less.prems(1) empty_cont(2)] empty_cont(3)
      Read_stream(1) [OF empty_cont(1) pos]
    show ?thesis by auto
  next
    case (write_fail chunk errRead body' nw e out')
    with Write_no_fault [OF less.prems(1), of chunk] show ?thesis by auto
  next
    case (read_stop chunk e body' nw out')
    with Write_no_fault [OF less.prems(1), of chunk] Read_stream(2) [OF read_stop(1) pos, of e]
    show ?thesis by auto
  next
    case (cont chunk body' nw out' es)
    have lt: "pending body' < pending body"
      using cont(1) by (rule Read_pending) (simp add: buf_def)
    from Write_no_fault [OF less.prems(1), of chunk] cont(3)
    have w: "nw = length chunk" "content out' = content out @ chunk"
      "list_all (\<lambda>x. x = None) (write_faults out')" by auto
    from less.hyps [OF lt w(3) cont(4)] cont(2,5) w(1,2) Read_stream(1) [OF cont(1) pos]
    show ?thesis by (auto simp: add.assoc)
  qed
qed



lemma Download_zero_length:
  assumes "NewRequest (client g) (url g @ ''/'' @ Filename dlFile) = None"
    and "Do (client g) (url g @ ''/'' @ Filename dlFile) = Inr resp"
    and "ContentLength resp = 0"
  shows "Download g dlFile outFile =
     (Some (Error ''unable to calculate progress: ContentLength is 0''), outFile,
      [Request (url g @ ''/'' @ Filename dlFile)])"
  using assms by (simp add: Download_def)

text \<open>
  Claim C2, at a response that declares no length. \<^verbatim>\<open>net/http\<close> reports an absent
  length as \<open>ContentLength = -1\<close>; the guard of \<^verbatim>\<open>Download\<close> tests for \<open>0\<close> only
  (lemma \<open>Download_zero_length\<close>), so the three bytes of the body are read and written, a
  progress value of \<open>-3\<close> is emitted and the call returns no error.
\<close>

theorem Download_unknown_length:
  "Download
     \<lparr>url = ''https://go.dev/dl'',
      client = \<lparr>NewRequest = (\<lambda>u. None),
                Do = (\<lambda>u. Inr \<lparr>ContentLength = - 1, Body = [([1, 2, 3], Some EOF)]\<rparr>)\<rparr>\<rparr>
     (zero_File\<lparr>Filename := ''go1.20.2.linux-amd64.tar.gz''\<rparr>)
     \<lparr>content = [], write_faults = []\<rparr>
   = (None, \<lparr>content = [1, 2, 3], write_faults = []\<rparr>,
      [Request ''https://go.dev/dl/go1.20.2.linux-amd64.tar.gz'',
       ReadCall [1, 2, 3] (Some EOF), WriteCall [1, 2, 3] 3 None, Progress (Finite (- 3))])"
  by (simp add: Download_def Download_loop.simps Read.simps Write.simps buf_def fdiv_def
      zero_File_def)

text \<open>
  Claim C8. When the request goes through, the body is a stream of \<open>N > 0\<close> bytes that
  ends cleanly, the response declares the length \<open>N\<close> and the destination takes every
  write, \<^verbatim>\<open>Download\<close> returns no error, has appended exactly these \<open>N\<close> bytes to the
  destination, and the last progress value it emitted is \<open>1\<close>.
\<close>

theorem Download_writes_all:
  assumes "NewRequest (client g) (url g @ ''/'' @ Filename dlFile) = None"
    and "Do (client g) (url g @ ''/'' @ Filename dlFile) = Inr resp"
    and "stream_end (Body resp) = EOF"
    and "ContentLength resp = int (length (stream_data (Body resp)))"
    and "0 < length (stream_data (Body resp))"
    and "list_all (\<lambda>x. x = None) (write_faults outFile)"
  shows "\<exists>f evs. Download g dlFile outFile = (None, f, evs)
           \<and> content f = content outFile @ stream_data (Body resp)
           \<and> written evs = stream_data (Body resp)
           \<and> progress_of evs \<noteq> [] \<and> last (progress_of evs) = Finite 1"
proof -
  let ?u = "url g @ ''/'' @ Filename dlFile"
  let ?N = "int (length (stream_data (Body resp)))"
  obtain r f es where loop: "Download_loop ?N 0 (Body resp) outFile = (r, f, es)"
    by (metis prod.exhaust)
  from assms(5) have N: "?N \<noteq> 0" and data: "stream_data (Body resp) \<noteq> []" by auto
  from Download_loop_complete [OF assms(6) loop] assms(3) data N
  have r: "r = None" and c: "content f = content outFile @ stream_data (Body resp)"
    and p: "progress_of es \<noteq> []" "last (progress_of es) = Finite 1"
    by (simp_all add: fdiv_def)
  from Download_loop_trace [OF loop] c have "written es = stream_data (Body resp)" by simp
  moreover from assms(1,2,4) N loop
  have "Download g dlFile outFile = (r, f, Request ?u # es)"
    by (simp add: Download_def)
  ultimately show ?thesis using r c p by simp
qed

theorem Download_writes_all_witness:
  "\<exists>f evs. Download
       \<lparr>url = ''https://go.dev/dl'',
        client = \<lparr>NewRequest = (\<lambda>u. None),
                  Do = (\<lambda>u. Inr \<lparr>ContentLength = 3, Body = [([1, 2], None), ([3], Some EOF)]\<rparr>)\<rparr>\<rparr>
       zero_File \<lparr>content = [], write_faults = []\<rparr> = (None, f, evs)
     \<and> content f = [1, 2, 3] \<and> written evs = [1, 2, 3]
     \<and> progress_of evs \<noteq> [] \<and> last (progress_of evs) = Finite 1"
  using Download_writes_all [of
      "\<lparr>url = ''https://go.dev/dl'',
        client = \<lparr>NewRequest = (\<lambda>u. None),
                  Do = (\<lambda>u. Inr \<lparr>ContentLength = 3, Body = [([1, 2], None), ([3], Some EOF)]\<rparr>)\<rparr>\<rparr>"
      zero_File "\<lparr>ContentLength = 3, Body = [([1, 2], None), ([3], Some EOF)]\<rparr>"
      "\<lparr>content = [], write_faults = []\<rparr>"]
  by simp

text \<open>
  Claim C5, as the code has it. When the request goes through and the declared length
  is not zero, the events of \<^verbatim>\<open>Download\<close> are the request followed by rounds of read,
  write and progress: every chunk is at most 32 KiB and is written before the next read;
  a progress value, the bytes written so far over the total, follows every write, the
  failed one too, since the error of the write is looked at after the progress call;
  nothing is read or written after a failed write or a read that reported an error; the
  error returned is that of the failed write, else that of the read that failed with
  something other than \<^verbatim>\<open>io.EOF\<close>; the destination holds what the writes took.
\<close>

theorem Download_rounds:
  assumes "NewRequest (client g) (url g @ ''/'' @ Filename dlFile) = None"
    and "Do (client g) (url g @ ''/'' @ Filename dlFile) = Inr resp"
    and "ContentLength resp \<noteq> 0"
    and "Download g dlFile outFile = (r, f, evs)"
  shows "\<exists>es. evs = Request (url g @ ''/'' @ Filename dlFile) # es
           \<and> transfer_trace (ContentLength resp) 0 es \<and> stops es
           \<and> r = failure_of es \<and> content f = content outFile @ written es"
proof -
  obtain r' f' es where loop: "Download_loop (ContentLength resp) 0 (Body resp) outFile = (r', f', es)"
    by (metis prod.exhaust)
  with assms have "r = r'" "f = f'" "evs = Request (url g @ ''/'' @ Filename dlFile) # es"
    by (simp_all add: Download_def)
  with Download_loop_trace [OF loop] show ?thesis by simp
qed

theorem Download_rounds_witness:
  "\<exists>es. [Request ''https://go.dev/dl/'', ReadCall [1, 2] None,
          WriteCall [1, 2] 1 (Some (Error ''no space left on device'')), Progress (Finite (1 / 2))]
        = Request ''https://go.dev/dl/'' # es
     \<and> transfer_trace 2 0 es \<and> stops es
     \<and> Some (Error ''no space left on device'') = failure_of es
     \<and> [1] = [] @ written es"
  using Download_rounds [of
      "\<lparr>url = ''https://go.dev/dl'',
        client = \<lparr>NewRequest = (\<lambda>u. None),
                  Do = (\<lambda>u. Inr \<lparr>ContentLength = 2, Body = [([1, 2], None)]\<rparr>)\<rparr>\<rparr>"
      zero_File "\<lparr>ContentLength = 2, Body = [([1, 2], None)]\<rparr>"
      "\<lparr>content = [], write_faults = [Some (1, Error ''no space left on device'')]\<rparr>"
      "Some (Error ''no space left on device'')"
      "\<lparr>content = [1], write_faults = []\<rparr>"
      "[Request ''https://go.dev/dl/'', ReadCall [1, 2] None,
        WriteCall [1, 2] 1 (Some (Error ''no space left on device'')), Progress (Finite (1 / 2))]"]
  by (simp add: Download_def Download_loop.simps Read.simps Write.simps buf_def fdiv_def
      zero_File_def)

text \<open>
  Claim C5 as stated fails: a write that fails after one byte of two is still followed
  by a progress event, emitted before the download is aborted.
\<close>

theorem Download_progress_after_failed_write:
  "Download
     \<lparr>url = ''https://go.dev/dl'',
      client = \<lparr>NewRequest = (\<lambda>u. None),
                Do = (\<lambda>u. Inr \<lparr>ContentLength = 2, Body = [([1, 2], None)]\<rparr>)\<rparr>\<rparr>
     zero_File
     \<lparr>content = [], write_faults = [Some (1, Error ''no space left on device'')]\<rparr>
   = (Some (Error ''no space left on device''), \<lparr>content = [1], write_faults = []\<rparr>,
      [Request ''https://go.dev/dl/'', ReadCall [1, 2] None,
       WriteCall [1, 2] 1 (Some (Error ''no space left on device'')), Progress (Finite (1 / 2))])"
  by (simp add: Download_def Download_loop.simps Read.simps Write.simps buf_def fdiv_def
      zero_File_def)

section \<open>Properties of Decompress\<close>

lemma regular_count_simps [simp]:
  "regular_count [] = 0"
  "regular_count ((h, d) # es) = (if Typeflag h = TypeReg then 1 else 0) + regular_count es"
  by (simp_all add: regular_count_def)

lemma count_loop_eq:
  "count_loop es fin n = (if fin = EOF then Return (n + regular_count es) else Panic)"
  by (induction es arbitrary: n) auto

lemma extract_loop_progress:
  assumes "extract_loop dst es fin c tot fs = (e, fs2, ps)"
  shows "length ps \<le> length es
     \<and> (e = None \<longrightarrow> length ps = length es \<and> fin = EOF)
     \<and> (\<forall>k < length ps. ps ! k = fdiv (c + regular_count (take (Suc k) es)) tot)"
  using assms
proof (induction es arbitrary: c fs e fs2 ps)
  case Nil
  then show ?case by (auto split: if_splits)
next
  case (Cons a es)
  obtain h d where a: "a = (h, d)" by (cases a)
  show ?case
  proof (cases ps)
    case Nil
    with Cons.prems a show ?thesis
      by (auto simp: Let_def split: if_splits sum.splits prod.splits option.splits)
  next
    case (Cons p ps')
    let ?c = "c + (if Typeflag h = TypeReg then 1 else 0)"
    from Cons.prems a Cons obtain fs1 where
      rec: "extract_loop dst es fin ?c tot fs1 = (e, fs2, ps')" and p: "p = fdiv ?c tot"
      by (auto simp: Let_def TypeReg_def TypeDir_def split: if_splits sum.splits prod.splits option.splits)
    from Cons.IH [OF rec] have IH: "length ps' \<le> length es"
      "e = None \<longrightarrow> length ps' = length es \<and> fin = EOF"
      "\<forall>k < length ps'. ps' ! k = fdiv (?c + regular_count (take (Suc k) es)) tot" by auto
    have "ps ! k = fdiv (c + regular_count (take (Suc k) (a # es))) tot" if "k < length ps" for k
    proof (cases k)
      case 0
      with Cons p a show ?thesis by simp
    next
      case (Suc k')
      with that Cons have "k' < length ps'" by simp
      with IH(3) have "ps' ! k' = fdiv (?c + regular_count (take (Suc k') es)) tot" by blast
      with Suc Cons a show ?thesis by (simp add: add.assoc)
    qed
    with IH(1,2) Cons show ?thesis by simp
  qed
qed






lemma put_simps [simp]:
  "nodes (put fs p n) = (nodes fs)(p \<mapsto> n)"
  "umask (put fs p n) = umask fs"
  "copy_fault (put fs p n) = copy_fault fs"
  by (simp_all add: put_def)



























lemmas run_defs = Decompress_def MkdirAll_def Mkdir_def node_at_def put_def Clean_def Join_def
  clean_step_def Stat_def OpenFile_def Copy_def fdiv_def TypeReg_def TypeDir_def Let_def
  syscallMode_def

text \<open>
  Claim C9, at an archive whose tar stream is cut after its first entry:
  \<^verbatim>\<open>tr.Next()\<close> then returns a nil header with \<^verbatim>\<open>io.ErrUnexpectedEOF\<close>. The counting
  loop tests for \<^verbatim>\<open>io.EOF\<close> only and reads \<^verbatim>\<open>header.Typeflag\<close> of the nil header:
  \<^verbatim>\<open>Decompress\<close> panics, where the extraction loop would have returned the error.
\<close>

theorem Decompress_counting_panics:
  "Decompress ''/usr/local''
     \<lparr>gzip_fault = None,
      entries = [(\<lparr>Name = ''go/VERSION'', Typeflag = TypeReg, Mode = 420\<rparr>, [1, 2, 3])],
      ending = Error ''unexpected EOF'', seek_fault = None, pos = 0\<rparr>
     \<lparr>nodes = Map.empty, umask = 18, copy_fault = (\<lambda>p. None)\<rparr>
   = (Panic,
      \<lparr>nodes = [(True, [''usr'']) \<mapsto> Dir 493, (True, [''usr'', ''local'']) \<mapsto> Dir 493],
       umask = 18, copy_fault = (\<lambda>p. None)\<rparr>, [])"
  by (simp add: run_defs)

text \<open>
  Claim C6, as the code has it. When the destination can be made, the gzip header is
  accepted, the tar stream ends cleanly, the seek succeeds and the source stands at its
  start, \<^verbatim>\<open>Decompress\<close> first counts the regular-file entries of the whole archive, then
  rewinds and extracts from the first entry on, with that count as the fixed
  denominator. It emits one progress value after every entry it has handled, of whatever
  type: the value after the \<open>k\<close>-th entry is the number of regular files among the first
  \<open>k\<close> entries over the count. All entries are handled when no error is returned.
\<close>

theorem Decompress_two_passes:
  assumes "dst \<noteq> []" and "MkdirAll fs (Clean dst) 493 = (None, fs1)"
    and "gzip_fault r = None" and "ending r = EOF" and "seek_fault r = None" and "pos r = 0"
  shows "\<exists>e fs2 ps. Decompress dst r fs = (Return e, fs2, ps)
     \<and> extract_loop dst (entries r) EOF 0 (regular_count (entries r)) fs1 = (e, fs2, ps)
     \<and> length ps \<le> length (entries r)
     \<and> (e = None \<longrightarrow> length ps = length (entries r))
     \<and> (\<forall>k < length ps.
           ps ! k = fdiv (regular_count (take (Suc k) (entries r))) (regular_count (entries r)))"
proof -
  obtain e fs2 ps
    where loop: "extract_loop dst (entries r) EOF 0 (regular_count (entries r)) fs1 = (e, fs2, ps)"
    by (metis prod.exhaust)
  with assms have "Decompress dst r fs = (Return e, fs2, ps)"
    by (simp add: Decompress_def count_loop_eq)
  with loop extract_loop_progress [OF loop] show ?thesis by simp
qed

theorem Decompress_two_passes_witness:
  "\<exists>e fs2 ps. Decompress ''/usr/local''
       \<lparr>gzip_fault = None,
        entries = [(\<lparr>Name = ''go/'', Typeflag = TypeDir, Mode = 493\<rparr>, []),
                   (\<lparr>Name = ''go/VERSION'', Typeflag = TypeReg, Mode = 420\<rparr>, [1, 2, 3])],
        ending = EOF, seek_fault = None, pos = 0\<rparr>
       \<lparr>nodes = [(True, [''usr'']) \<mapsto> Dir 493, (True, [''usr'', ''local'']) \<mapsto> Dir 493],
        umask = 18, copy_fault = (\<lambda>p. None)\<rparr> = (Return e, fs2, ps)
     \<and> length ps \<le> 2"
proof -
  let ?fs = "\<lparr>nodes = [(True, [''usr'']) \<mapsto> Dir 493, (True, [''usr'', ''local'']) \<mapsto> Dir 493],
        umask = 18, copy_fault = (\<lambda>p. None)\<rparr>"
  let ?r = "\<lparr>gzip_fault = None,
        entries = [(\<lparr>Name = ''go/'', Typeflag = TypeDir, Mode = 493\<rparr>, []),
                   (\<lparr>Name = ''go/VERSION'', Typeflag = TypeReg, Mode = 420\<rparr>, [1, 2, 3])],
        ending = EOF, seek_fault = None, pos = 0\<rparr>"
  have 1: "''/usr/local'' \<noteq> []" by simp
  have 2: "MkdirAll ?fs (Clean ''/usr/local'') 493 = (None, ?fs)"
    by (simp add: MkdirAll_def node_at_def Clean_def clean_step_def Let_def)
  have 3: "gzip_fault ?r = None" and 4: "ending ?r = EOF" and 5: "seek_fault ?r = None"
    and 6: "pos ?r = 0" by simp_all
  from Decompress_two_passes [OF 1 2 3 4 5 6] obtain e fs2 ps
    where "Decompress ''/usr/local'' ?r ?fs = (Return e, fs2, ps)" "length ps \<le> length (entries ?r)"
    by blast
  then show ?thesis by auto
qed

lemma Decompress_dir_and_file:
  "Decompress ''/usr/local''
     \<lparr>gzip_fault = None,
      entries = [(\<lparr>Name = ''go/'', Typeflag = TypeDir, Mode = 493\<rparr>, []),
                 (\<lparr>Name = ''go/VERSION'', Typeflag = TypeReg, Mode = 420\<rparr>, [1, 2, 3])],
      ending = EOF, seek_fault = None, pos = 0\<rparr>
     \<lparr>nodes = Map.empty, umask = 18, copy_fault = (\<lambda>p. None)\<rparr>
   = (Return None,
      \<lparr>nodes = [(True, [''usr'']) \<mapsto> Dir 493, (True, [''usr'', ''local'']) \<mapsto> Dir 493,
                (True, [''usr'', ''local'', ''go'']) \<mapsto> Dir 493,
                (True, [''usr'', ''local'', ''go'', ''VERSION'']) \<mapsto> Regular 420 [1, 2, 3]],
       umask = 18, copy_fault = (\<lambda>p. None)\<rparr>,
      [Finite 0, Finite 1])"
  by (simp add: run_defs)

text \<open>
  Claim C6 as stated fails: an archive of one directory and one regular file gives two
  progress values, the first of them after the directory entry.
\<close>

theorem Decompress_progress_after_directory:
  "Decompress ''/usr/local''
     \<lparr>gzip_fault = None,
      entries = [(\<lparr>Name = ''go/'', Typeflag = TypeDir, Mode = 493\<rparr>, []),
                 (\<lparr>Name = ''go/VERSION'', Typeflag = TypeReg, Mode = 420\<rparr>, [1, 2, 3])],
      ending = EOF, seek_fault = None, pos = 0\<rparr>
     \<lparr>nodes = Map.empty, umask = 18, copy_fault = (\<lambda>p. None)\<rparr>
   = (Return None,
      \<lparr>nodes = [(True, [''usr'']) \<mapsto> Dir 493, (True, [''usr'', ''local'']) \<mapsto> Dir 493,
                (True, [''usr'', ''local'', ''go'']) \<mapsto> Dir 493,
                (True, [''usr'', ''local'', ''go'', ''VERSION'']) \<mapsto> Regular 420 [1, 2, 3]],
       umask = 18, copy_fault = (\<lambda>p. None)\<rparr>,
      [Finite 0, Finite 1])"
  by (rule Decompress_dir_and_file)






section \<open>Properties of the orchestrator\<close>

lemmas example_defs = still_widgets_def go1_20_2_def unreachable_def choosing_def plain_os_def
  installed_def zero_File_def go1_20_2_windows_def go1_20_2_again_def

lemma find_filter: "find P xs = (case filter P xs of [] \<Rightarrow> None | x # l \<Rightarrow> Some x)"
  by (induction xs) auto

lemma Filter_head:
  "(case Filter files specs of [] \<Rightarrow> None | f # l \<Rightarrow> Some f)
     = find (\<lambda>v. list_all (\<lambda>spec. spec v) specs) files"
  by (simp add: Filter_eq find_filter)

lemma Filter_linux_amd64:
  "(case Filter files [\<lambda>f. Os f = ''linux'', \<lambda>f. Arch f = ''amd64''] of [] \<Rightarrow> None | f # l \<Rightarrow> Some f)
     = find linux_amd64 files"
  by (simp add: Filter_head linux_amd64_def [abs_def])

lemma candidates_Cons:
  "candidates (v # vs) ch =
     (if ch = Release.Version v then
        (case find linux_amd64 (Files v) of None \<Rightarrow> candidates vs ch | Some f \<Rightarrow> f # candidates vs ch)
      else candidates vs ch)"
  by (simp add: candidates_def List.map_filter_simps split: option.splits)

lemma candidates_Nil [simp]: "candidates [] ch = []"
  by (simp add: candidates_def List.map_filter_simps)

lemma dlf_loop_candidates:
  "dlf_loop dlf vs ch = (if candidates vs ch = [] then dlf else last (candidates vs ch))"
proof (induction vs arbitrary: dlf)
  case Nil
  then show ?case by simp
next
  case (Cons v vs)
  show ?case
  proof (cases "ch = Release.Version v")
    case False
    with Cons show ?thesis by (simp add: candidates_Cons)
  next
    case True
    show ?thesis
    proof (cases "Filter (Files v) [\<lambda>f. Os f = ''linux'', \<lambda>f. Arch f = ''amd64'']")
      case Nil
      with Filter_linux_amd64 [of "Files v"] have "find linux_amd64 (Files v) = None" by simp
      with Nil True Cons show ?thesis by (simp add: candidates_Cons)
    next
      case (Cons f l)
      with Filter_linux_amd64 [of "Files v"] have "find linux_amd64 (Files v) = Some f" by simp
      with Cons True Cons.IH [of f] show ?thesis by (simp add: candidates_Cons)
    qed
  qed
qed

lemma candidates_linux_amd64: "f \<in> set (candidates vs ch) \<Longrightarrow> linux_amd64 f"
proof (induction vs)
  case Nil
  then show ?case by simp
next
  case (Cons v vs)
  then show ?case
    by (auto simp: candidates_Cons find_Some_iff split: if_splits option.splits)
qed

lemma candidates_filter:
  "candidates vs ch
     = List.map_filter (\<lambda>v. find linux_amd64 (Files v)) (filter (\<lambda>w. Release.Version w = ch) vs)"
  by (induction vs) (auto simp: candidates_Cons List.map_filter_simps split: option.splits)

lemma linux_amd64_not_zero: "linux_amd64 f \<Longrightarrow> f \<noteq> zero_File"
  by (auto simp: linux_amd64_def zero_File_def)

text \<open>
  Claim C1, as the code has it. For every catalog and choice, take of every release
  whose version is the choice the first file for linux/amd64, if it has one. If there
  is no such file, \<^verbatim>\<open>downloadCmd\<close> returns the error message "did not found a
  matching file" without creating a file or sending a request, and \<^verbatim>\<open>Update\<close>
  records that error and returns \<^verbatim>\<open>tea.Quit\<close>, the status staying as it is.
  Otherwise the file selected is the one taken from the last such release; it is for
  linux/amd64 and not the zero \<^verbatim>\<open>File\<close>, and the transfer that \<^verbatim>\<open>downloadCmd\<close> runs
  is the one for this file. When one release only has the version chosen, the file
  selected is the first file of that release for linux/amd64. Whenever the loop leaves
  the zero \<^verbatim>\<open>File\<close>, the error is returned. For every list of files and predicates,
  the head of what \<^verbatim>\<open>Filter\<close> returns is the first file that satisfies all
  predicates, if there is one.
\<close>

theorem downloadCmd_selection:
  "(candidates (versions m) (choice m) = [] \<longrightarrow>
       downloadCmd sys m = (Some (errMsg (Error ''did not found a matching file'')), m, [])
       \<and> Update tk m (errMsg (Error ''did not found a matching file''))
           = (m\<lparr>err := Some (Error ''did not found a matching file'')\<rparr>, Some Quit)
       \<and> status (fst (Update tk m (errMsg (Error ''did not found a matching file'')))) = status m)
   \<and> (candidates (versions m) (choice m) \<noteq> [] \<longrightarrow>
       linux_amd64 (last (candidates (versions m) (choice m)))
       \<and> last (candidates (versions m) (choice m)) \<noteq> zero_File
       \<and> dlf_loop zero_File (versions m) (choice m) = last (candidates (versions m) (choice m))
       \<and> (\<forall>tmp. CreateTemp sys = Inr tmp \<longrightarrow>
            (case Download (repo m) (last (candidates (versions m) (choice m))) tmp of
               (r, f', evs) \<Rightarrow>
                 downloadCmd sys m = (map_option errMsg r, m\<lparr>file := Some f'\<rparr>, TempFile # evs))))
   \<and> (\<forall>v. filter (\<lambda>w. Release.Version w = choice m) (versions m) = [v] \<longrightarrow>
         candidates (versions m) (choice m)
           = (case find linux_amd64 (Files v) of None \<Rightarrow> [] | Some f \<Rightarrow> [f]))
   \<and> (dlf_loop zero_File (versions m) (choice m) = zero_File \<longrightarrow>
         downloadCmd sys m = (Some (errMsg (Error ''did not found a matching file'')), m, []))
   \<and> (case Filter files specs of [] \<Rightarrow> None | f # l \<Rightarrow> Some f)
        = find (\<lambda>x. list_all (\<lambda>spec. spec x) specs) files"
proof -
  let ?c = "candidates (versions m) (choice m)"
  have sel: "dlf_loop zero_File (versions m) (choice m) = (if ?c = [] then zero_File else last ?c)"
    by (rule dlf_loop_candidates)
  have zero: "dlf_loop zero_File (versions m) (choice m) = zero_File \<longrightarrow>
      downloadCmd sys m = (Some (errMsg (Error ''did not found a matching file'')), m, [])"
    by (simp add: downloadCmd_def)
  have none: "?c = [] \<longrightarrow>
       downloadCmd sys m = (Some (errMsg (Error ''did not found a matching file'')), m, [])
       \<and> Update tk m (errMsg (Error ''did not found a matching file''))
           = (m\<lparr>err := Some (Error ''did not found a matching file'')\<rparr>, Some Quit)
       \<and> status (fst (Update tk m (errMsg (Error ''did not found a matching file'')))) = status m"
    using sel by (simp add: downloadCmd_def)
  have some: "linux_amd64 (last ?c) \<and> last ?c \<noteq> zero_File
       \<and> dlf_loop zero_File (versions m) (choice m) = last ?c
       \<and> (\<forall>tmp. CreateTemp sys = Inr tmp \<longrightarrow>
            (case Download (repo m) (last ?c) tmp of
               (r, f', evs) \<Rightarrow>
                 downloadCmd sys m = (map_option errMsg r, m\<lparr>file := Some f'\<rparr>, TempFile # evs)))"
    if c: "?c \<noteq> []"
  proof -
    from c have "last ?c \<in> set ?c" by simp
    then have la: "linux_amd64 (last ?c)" by (rule candidates_linux_amd64)
    then have nz: "last ?c \<noteq> zero_File" by (rule linux_amd64_not_zero)
    from sel c have d: "dlf_loop zero_File (versions m) (choice m) = last ?c" by simp
    have "(case Download (repo m) (last ?c) tmp of
              (r, f', evs) \<Rightarrow>
                downloadCmd sys m = (map_option errMsg r, m\<lparr>file := Some f'\<rparr>, TempFile # evs))"
      if "CreateTemp sys = Inr tmp" for tmp
      using that nz d by (auto simp: downloadCmd_def split: prod.splits option.splits)
    with la nz d show ?thesis by blast
  qed
  have one: "?c = (case find linux_amd64 (Files v) of None \<Rightarrow> [] | Some f \<Rightarrow> [f])"
    if "filter (\<lambda>w. Release.Version w = choice m) (versions m) = [v]" for v
    using that by (simp add: candidates_filter List.map_filter_simps split: option.splits)
  from none some one zero Filter_head [of files specs] show ?thesis by blast
qed

theorem downloadCmd_selection_witness:
  "candidates [go1_20_2, go1_20_2_windows] ''go1.20.2''
     = [zero_File\<lparr>Filename := ''go1.20.2.linux-amd64.tar.gz'', Os := ''linux'', Arch := ''amd64''\<rparr>]
   \<and> dlf_loop zero_File [go1_20_2, go1_20_2_windows] ''go1.20.2''
     = zero_File\<lparr>Filename := ''go1.20.2.linux-amd64.tar.gz'', Os := ''linux'', Arch := ''amd64''\<rparr>
   \<and> candidates [go1_20_2_windows] ''go1.20.2'' = []
   \<and> downloadCmd plain_os (choosing\<lparr>choice := ''go1.20.2'', versions := [go1_20_2_windows]\<rparr>)
     = (Some (errMsg (Error ''did not found a matching file'')),
        choosing\<lparr>choice := ''go1.20.2'', versions := [go1_20_2_windows]\<rparr>, [])"
proof -
  let ?f = "zero_File\<lparr>Filename := ''go1.20.2.linux-amd64.tar.gz'', Os := ''linux'', Arch := ''amd64''\<rparr>"
  let ?m = "choosing\<lparr>choice := ''go1.20.2'', versions := [go1_20_2, go1_20_2_windows]\<rparr>"
  let ?n = "choosing\<lparr>choice := ''go1.20.2'', versions := [go1_20_2_windows]\<rparr>"
  have 1: "candidates (versions ?m) (choice ?m) = [?f]"
    by (simp add: candidates_Cons go1_20_2_def go1_20_2_windows_def linux_amd64_def zero_File_def)
  have 2: "candidates (versions ?n) (choice ?n) = []"
    by (simp add: candidates_Cons go1_20_2_windows_def linux_amd64_def zero_File_def)
  from downloadCmd_selection [of ?m plain_os still_widgets "[]" "[]"] 1
  have "dlf_loop zero_File (versions ?m) (choice ?m) = ?f" by simp
  moreover from downloadCmd_selection [of ?n plain_os still_widgets "[]" "[]"] 2
  have "downloadCmd plain_os ?n = (Some (errMsg (Error ''did not found a matching file'')), ?n, [])"
    by blast
  ultimately show ?thesis using 1 2 by simp
qed

text \<open>
  Claim C1 as stated fails on two counts. With no file for linux/amd64 the machine does
  not reach an error state: \<^verbatim>\<open>State\<close> has no such value, the status is
  \<open>Downloading\<close> when the error has been taken and \<open>Extracting\<close> after the message
  that follows. And when two releases of the catalog have the version chosen, the file
  selected is that of the later one, not the first matching file of the first.
\<close>

theorem no_error_state_after_selection:
  "fst (run_sequence plain_os [StatusCmd Downloading, DownloadCmd, StatusCmd Extracting, ExtractCmd]
          (fst (Update still_widgets (choosing\<lparr>versions := [go1_20_2_windows]\<rparr>) (KeyMsg ''enter'')))
          installed)
     = [statusMsg Downloading, errMsg (Error ''did not found a matching file''),
        statusMsg Extracting, errMsg (Error ''invalid argument'')]
   \<and> status (deliver still_widgets
        (fst (Update still_widgets (choosing\<lparr>versions := [go1_20_2_windows]\<rparr>) (KeyMsg ''enter'')))
        [statusMsg Downloading, errMsg (Error ''did not found a matching file'')])
     = Downloading
   \<and> status (deliver still_widgets
        (fst (Update still_widgets (choosing\<lparr>versions := [go1_20_2_windows]\<rparr>) (KeyMsg ''enter'')))
        [statusMsg Downloading, errMsg (Error ''did not found a matching file''),
         statusMsg Extracting])
     = Extracting
   \<and> find linux_amd64 (Files go1_20_2)
     = Some (zero_File\<lparr>Filename := ''go1.20.2.linux-amd64.tar.gz'', Os := ''linux'', Arch := ''amd64''\<rparr>)
   \<and> dlf_loop zero_File [go1_20_2, go1_20_2_again] ''go1.20.2''
     = zero_File\<lparr>Filename := ''go1.20.2.linux-amd64.zip'', Os := ''linux'', Arch := ''amd64''\<rparr>"
  by (simp add: example_defs downloadCmd_def extractCmd_def Filter_def linux_amd64_def)

text \<open>
  A run in which the download fails: the catalog has the release chosen with its file
  for linux/amd64, the user presses enter, the server refuses the connection, and an
  installation is in place.
\<close>

lemma failed_download_messages:
  "fst (run_sequence plain_os [StatusCmd Downloading, DownloadCmd, StatusCmd Extracting, ExtractCmd]
          (fst (Update still_widgets choosing (KeyMsg ''enter''))) installed)
   = [statusMsg Downloading, errMsg (Error ''connection refused''), statusMsg Extracting, errMsg EOF]"
  by (simp add: example_defs downloadCmd_def extractCmd_def Download_def Filter_def run_defs
      RemoveAll_def)

lemma failed_download_removes_installation:
  "nodes (fst (snd (snd (run_sequence plain_os
       [StatusCmd Downloading, DownloadCmd, StatusCmd Extracting, ExtractCmd]
       (fst (Update still_widgets choosing (KeyMsg ''enter''))) installed))))
     (True, [''usr'', ''local'', ''go'', ''VERSION'']) = None
   \<and> nodes installed (True, [''usr'', ''local'', ''go'', ''VERSION'']) = Some (Regular 420 [1, 2, 3])"
  by (simp add: example_defs downloadCmd_def extractCmd_def Download_def Filter_def run_defs
      RemoveAll_def)

text \<open>
  Claim C3, in that run. On enter \<^verbatim>\<open>Update\<close> returns the sequence of all four
  commands, whatever the download will do. The download command returns the error of
  the refused connection, \<^verbatim>\<open>Update\<close> records it, and the sequence goes on: the status
  message for \<open>Extracting\<close> arrives after the error and is obeyed, so that the machine
  is in \<open>Extracting\<close> though no transfer completed, and the extract command runs and
  removes the installation in place before it fails on the empty file.
\<close>

theorem Extracting_after_failed_download:
  "snd (Update still_widgets choosing (KeyMsg ''enter''))
     = Some (Sequence [StatusCmd Downloading, DownloadCmd, StatusCmd Extracting, ExtractCmd])
   \<and> fst (run_sequence plain_os [StatusCmd Downloading, DownloadCmd, StatusCmd Extracting, ExtractCmd]
          (fst (Update still_widgets choosing (KeyMsg ''enter''))) installed)
     = [statusMsg Downloading, errMsg (Error ''connection refused''), statusMsg Extracting, errMsg EOF]
   \<and> err (deliver still_widgets (fst (Update still_widgets choosing (KeyMsg ''enter'')))
        [statusMsg Downloading, errMsg (Error ''connection refused'')])
     = Some (Error ''connection refused'')
   \<and> status (deliver still_widgets (fst (Update still_widgets choosing (KeyMsg ''enter'')))
        [statusMsg Downloading, errMsg (Error ''connection refused''), statusMsg Extracting])
     = Extracting
   \<and> nodes installed (True, [''usr'', ''local'', ''go'', ''VERSION'']) = Some (Regular 420 [1, 2, 3])
   \<and> nodes (fst (snd (snd (run_sequence plain_os
        [StatusCmd Downloading, DownloadCmd, StatusCmd Extracting, ExtractCmd]
        (fst (Update still_widgets choosing (KeyMsg ''enter''))) installed))))
      (True, [''usr'', ''local'', ''go'', ''VERSION'']) = None"
  using failed_download_messages failed_download_removes_installation by (simp add: example_defs)


section \<open>Properties of the release ordering\<close>










end
